theory Spec2Isabelle
  imports Main "HOL-Library.Word"
begin

section \<open>The globals of chardev.c\<close>

text \<open>
  The driver keeps all of its state in file-level statics. They are collected in one
  record that every entry point takes and returns:
  \<^item> \<open>major_num\<close> is the \<open>int\<close> that \<open>register_chrdev\<close> hands back;
  \<^item> \<open>message\<close> is the array \<open>char message[256]\<close>, a list of 256 bytes;
  \<^item> \<open>size_of_message\<close> is a \<open>short\<close>, a 16-bit two's complement word;
  \<^item> \<open>open_num\<close> is an \<open>int\<close>, a 32-bit two's complement word (kernel code is
    compiled so that signed arithmetic wraps around);
  \<^item> \<open>chardev_class\<close> and \<open>chardev_device\<close> are kernel pointers.
  Calls of \<open>printk\<close> only emit log lines and are left out. \<open>size_t\<close> and
  \<open>ssize_t\<close> are the 64-bit types of an LP64 kernel.
\<close>

text \<open>
  A kernel pointer as \<open>IS_ERR\<close> and \<open>PTR_ERR\<close> of \<open>linux/err.h\<close> see it: the null
  pointer, the address of an object, or an errno value packed by \<open>ERR_PTR\<close>.
  \<open>IS_ERR\<close> holds for the packed values \<open>-MAX_ERRNO .. -1\<close> with \<open>MAX_ERRNO = 4095\<close>.
\<close>

datatype kptr = NULL | Obj nat | ERR_PTR int

fun IS_ERR :: "kptr \<Rightarrow> bool" where
  "IS_ERR (ERR_PTR e) = (- 4095 \<le> e \<and> e < 0)"
| "IS_ERR NULL = False"
| "IS_ERR (Obj a) = False"

fun PTR_ERR :: "kptr \<Rightarrow> int" where
  "PTR_ERR (ERR_PTR e) = e"
| "PTR_ERR NULL = 0"
| "PTR_ERR (Obj a) = int a"

record chardev =
  major_num :: int
  message :: string
  size_of_message :: "16 word"
  open_num :: "32 word"
  chardev_class :: kptr
  chardev_device :: kptr

abbreviation NUL :: char where
  "NUL \<equiv> CHR 0x00"

definition MESSAGE_SIZE :: nat where
  "MESSAGE_SIZE = 256"

text \<open>The statics as the C initialisers leave them when the module is loaded.\<close>

definition initial_state :: chardev where
  "initial_state =
     \<lparr>major_num = 0, message = replicate MESSAGE_SIZE NUL, size_of_message = 0,
      open_num = 0, chardev_class = NULL, chardev_device = NULL\<rparr>"

text \<open>
  The invariant of the message slot: the array has its 256 bytes and the valid length
  lies between 0 and the capacity.
\<close>

definition slot_inv :: "chardev \<Rightarrow> bool" where
  "slot_inv s \<longleftrightarrow>
     length (message s) = MESSAGE_SIZE \<and>
     0 \<le> sint (size_of_message s) \<and> sint (size_of_message s) \<le> int MESSAGE_SIZE"

section \<open>Registration: \<open>chardev_init\<close> and \<open>chardev_exit\<close>\<close>

text \<open>
  The kernel registration interface is outside the driver. What its three acquiring
  calls return is a parameter of the model, and every call the driver makes is logged
  in order, so that acquisitions and releases can be counted.
\<close>

record kernel =
  register_chrdev_ret :: int
  class_create_ret :: kptr
  device_create_ret :: kptr

datatype kcall =
    Register_chrdev int
  | Class_create
  | Device_create kptr int
  | Device_destroy kptr int
  | Class_unregister kptr
  | Class_destroy kptr
  | Unregister_chrdev int

definition chardev_init :: "kernel \<Rightarrow> chardev \<Rightarrow> int \<times> chardev \<times> kcall list" where
  "chardev_init k s =
     (let s1 = s\<lparr>major_num := register_chrdev_ret k\<rparr>;
          t1 = [Register_chrdev 0]
      in if major_num s1 < 0 then (major_num s1, s1, t1)
         else
           let s2 = s1\<lparr>chardev_class := class_create_ret k\<rparr>;
               t2 = t1 @ [Class_create]
           in if IS_ERR (chardev_class s2)
              then (PTR_ERR (chardev_class s2), s2,
                    t2 @ [Unregister_chrdev (major_num s2)])
              else
                let s3 = s2\<lparr>chardev_device := device_create_ret k\<rparr>;
                    t3 = t2 @ [Device_create (chardev_class s2) (major_num s2)]
                in if IS_ERR (chardev_device s3)
                   then (PTR_ERR (chardev_device s3), s3,
                         t3 @ [Class_destroy (chardev_class s3),
                               Unregister_chrdev (major_num s3)])
                   else (0, s3, t3))"

definition chardev_exit :: "chardev \<Rightarrow> kcall list" where
  "chardev_exit s =
     [Device_destroy (chardev_class s) (major_num s),
      Class_unregister (chardev_class s),
      Class_destroy (chardev_class s),
      Unregister_chrdev (major_num s)]"

text \<open>Recognisers for the calls that are counted in a rollback.\<close>

definition is_unregister_chrdev :: "kcall \<Rightarrow> bool" where
  "is_unregister_chrdev c = (case c of Unregister_chrdev m \<Rightarrow> True | _ \<Rightarrow> False)"

definition is_device_create :: "kcall \<Rightarrow> bool" where
  "is_device_create c = (case c of Device_create p m \<Rightarrow> True | _ \<Rightarrow> False)"

definition is_class_destroy :: "kcall \<Rightarrow> bool" where
  "is_class_destroy c = (case c of Class_destroy p \<Rightarrow> True | _ \<Rightarrow> False)"

section \<open>The file operations\<close>

subsection \<open>\<open>dev_open\<close> and \<open>dev_release\<close>\<close>

definition dev_open :: "chardev \<Rightarrow> int \<times> chardev" where
  "dev_open s = (0, s\<lparr>open_num := open_num s + 1\<rparr>)"

definition dev_release :: "chardev \<Rightarrow> int \<times> chardev" where
  "dev_release s = (0, s)"

text \<open>\<open>n\<close> calls of \<open>dev_open\<close> one after the other, each on the state the last one left.\<close>

primrec opens :: "nat \<Rightarrow> chardev \<Rightarrow> chardev" where
  "opens 0 s = s"
| "opens (Suc n) s = opens n (snd (dev_open s))"

subsection \<open>\<open>dev_read\<close>\<close>

text \<open>
  \<open>copy_to_user\<close> is a kernel primitive. Its contract, which the comment in \<open>dev_read\<close>
  repeats, is that it returns the number of bytes it could not copy, 0 on success.
  The caller's buffer is described by the number of bytes that can be written at the
  pointer; the bytes that do land there are returned next to the count.
\<close>

definition copy_to_user :: "nat \<Rightarrow> string \<Rightarrow> nat \<Rightarrow> nat \<times> string" where
  "copy_to_user writable src n = (let k = min n writable in (n - k, take k src))"

text \<open>The errno value \<open>EFAULT\<close> of the kernel headers, "bad address".\<close>

definition EFAULT :: "64 word" where
  "EFAULT = 14"

text \<open>
  The result is the \<open>ssize_t\<close> returned, the new state, and the bytes stored in the
  caller's buffer. The third argument of \<open>copy_to_user\<close> is the \<open>short\<close> converted to
  \<open>unsigned long\<close>; \<open>error_count\<close> is its \<open>unsigned long\<close> result converted to \<open>int\<close>.
  On success the function returns the value of the assignment \<open>size_of_message = 0\<close>.
  The parameter \<open>len\<close> is there because the C function has it; the body never
  mentions it.
\<close>

definition dev_read :: "chardev \<Rightarrow> nat \<Rightarrow> 64 word \<Rightarrow> 64 word \<times> chardev \<times> string" where
  "dev_read s writable len =
     (let n = unat (scast (size_of_message s) :: 64 word);
          (uncopied, delivered) = copy_to_user writable (message s) n;
          error_count = (of_nat uncopied :: 32 word)
      in if error_count = 0
         then (0, s\<lparr>size_of_message := 0\<rparr>, delivered)
         else (- EFAULT, s, delivered))"

subsection \<open>\<open>dev_write\<close>\<close>

text \<open>\<open>%zu\<close>: the decimal digits of an unsigned number, most significant first.\<close>

definition digit :: "nat \<Rightarrow> char" where
  "digit d = ''0123456789'' ! d"

function decimal :: "nat \<Rightarrow> string" where
  "decimal n = (if n < 10 then [digit n] else decimal (n div 10) @ [digit (n mod 10)])"
  by pat_completeness auto
termination
  by (relation "measure id") auto

declare decimal.simps [simp del]

text \<open>
  The caller's memory from the pointer \<open>buffer\<close> onwards is a list of bytes. \<open>%s\<close> reads
  it up to the first zero byte, whatever \<open>len\<close> says; memory with no zero byte in it is
  read past its end.
\<close>

definition c_string :: "string \<Rightarrow> string option" where
  "c_string mem = (if NUL \<in> set mem then Some (takeWhile (\<lambda>c. c \<noteq> NUL) mem) else None)"

definition strlen :: "string \<Rightarrow> nat" where
  "strlen mem = length (takeWhile (\<lambda>c. c \<noteq> NUL) mem)"

text \<open>What the format \<open>"%s (%zu letters)"\<close> produces, without the closing zero byte.\<close>

definition annotation :: "64 word \<Rightarrow> string" where
  "annotation len = '' ('' @ decimal (unat len) @ '' letters)''"

definition format_message :: "string \<Rightarrow> 64 word \<Rightarrow> string option" where
  "format_message buffer len = map_option (\<lambda>str. str @ annotation len) (c_string buffer)"

text \<open>
  \<open>sprintf\<close> has no bound: it stores the text and a closing zero byte from the start of
  the destination. Text that does not fit the array is written past its end, which C
  leaves undefined; the model reports how many bytes were written.
\<close>

datatype fault = Src_unterminated | Dst_overrun nat

definition store_text :: "string \<Rightarrow> string \<Rightarrow> fault + string" where
  "store_text dst txt =
     (if length txt + 1 \<le> length dst
      then Inr (txt @ NUL # drop (length txt + 1) dst)
      else Inl (Dst_overrun (length txt + 1)))"

text \<open>
  The result is the memory fault of \<open>sprintf\<close>, after which the call does not return
  in any defined way, or the \<open>ssize_t\<close> of \<open>return len\<close> together with the new state.
\<close>

definition dev_write :: "chardev \<Rightarrow> string \<Rightarrow> 64 word \<Rightarrow> fault + 64 word \<times> chardev" where
  "dev_write s buffer len =
     (case format_message buffer len of
        None \<Rightarrow> Inl Src_unterminated
      | Some txt \<Rightarrow>
          (case store_text (message s) txt of
             Inl f \<Rightarrow> Inl f
           | Inr m \<Rightarrow> Inr (len, s\<lparr>message := m, size_of_message := of_nat (strlen m)\<rparr>)))"

section \<open>A caller\<close>

text \<open>
  A process that writes once and then reads twice, offering \<open>writable\<close> bytes of room
  at each read. It yields what the two reads stored in its buffer, or the memory fault
  of the write.
\<close>

definition write_read_read :: "chardev \<Rightarrow> string \<Rightarrow> 64 word \<Rightarrow> nat \<Rightarrow> fault + string \<times> string" where
  "write_read_read s buffer len writable =
     (case dev_write s buffer len of
        Inl f \<Rightarrow> Inl f
      | Inr written \<Rightarrow>
          (let first = dev_read (snd written) writable (of_nat writable);
               second = dev_read (fst (snd first)) writable (of_nat writable)
           in Inr (snd (snd first), snd (snd second))))"

section \<open>States used as examples\<close>

text \<open>The statics after the string \<open>hello\<close> was written to a freshly loaded driver.\<close>

definition hello_state :: chardev where
  "hello_state =
     initial_state\<lparr>message := ''hello (5 letters)'' @ replicate 239 NUL,
                   size_of_message := 17\<rparr>"

section \<open>Auxiliary facts\<close>

subsection \<open>Conversions between the integer types\<close>

lemma sint_of_nat_short: "n < 32768 \<Longrightarrow> sint (of_nat n :: 16 word) = int n"
  by (simp add: signed_of_nat signed_take_bit_int_eq_self)

lemma sint_of_nat_int: "n < 2 ^ 31 \<Longrightarrow> sint (of_nat n :: 32 word) = int n"
  by (simp add: signed_of_nat signed_take_bit_int_eq_self)

lemma slot_count:
  fixes w :: "16 word"
  assumes "0 \<le> sint w"
  shows "unat (scast w :: 64 word) = nat (sint w)"
proof -
  have "sint w < 2 ^ 15" using sint_lt [of w] by simp
  then have "sint w < 2 ^ 64" by simp
  with assms have tb: "take_bit 64 (sint w) = sint w"
    by (rule take_bit_int_eq_self)
  have "uint (scast w :: 64 word) = take_bit 64 (sint w)"
    by (simp only: scast_eq uint_word_of_int_eq len_num1 len_bit0 mult_1_right) simp
  then show ?thesis
    by (simp only: tb unat_eq_nat_uint)
qed

lemma error_count_zero:
  assumes "n < 2 ^ 32"
  shows "(of_nat n :: 32 word) = 0 \<longleftrightarrow> n = 0"
proof
  have u: "unat (of_nat n :: 32 word) = n"
    using assms by (simp add: unat_of_nat)
  assume "(of_nat n :: 32 word) = 0"
  then have "unat (of_nat n :: 32 word) = unat (0 :: 32 word)"
    by (rule arg_cong)
  with u show "n = 0" by simp
next
  assume "n = 0"
  then show "(of_nat n :: 32 word) = 0" by simp
qed

subsection \<open>Formatted text has no zero byte\<close>

lemma digit_not_NUL: "d < 10 \<Longrightarrow> digit d \<noteq> NUL"
proof -
  assume "d < 10"
  then have "d \<in> set [0..<10]" by simp
  then show ?thesis
    by (auto simp: digit_def upt_rec)
qed

lemma decimal_no_NUL: "NUL \<notin> set (decimal n)"
proof (induction n rule: decimal.induct)
  case (1 n)
  show ?case
  proof (cases "n < 10")
    case True
    then show ?thesis using digit_not_NUL [of n] by (simp add: decimal.simps [of n])
  next
    case False
    then have "NUL \<notin> set (decimal (n div 10))" using "1" by simp
    moreover have "digit (n mod 10) \<noteq> NUL" by (rule digit_not_NUL) simp
    ultimately show ?thesis using False by (simp add: decimal.simps [of n])
  qed
qed

lemma annotation_no_NUL: "NUL \<notin> set (annotation len)"
  by (simp add: annotation_def decimal_no_NUL)

lemma length_annotation: "length (annotation len) = 11 + length (decimal (unat len))"
  by (simp add: annotation_def)

lemma takeWhile_terminated:
  "NUL \<notin> set str \<Longrightarrow> takeWhile (\<lambda>c. c \<noteq> NUL) (str @ NUL # rest) = str"
  by (induction str) auto

lemma strlen_terminated: "NUL \<notin> set str \<Longrightarrow> strlen (str @ NUL # rest) = length str"
  by (simp add: strlen_def takeWhile_terminated)

lemma c_string_no_NUL: "c_string mem = Some str \<Longrightarrow> NUL \<notin> set str"
  by (auto simp: c_string_def split: if_splits dest: set_takeWhileD)

lemma c_string_terminated: "NUL \<notin> set b \<Longrightarrow> c_string (b @ NUL # rest) = Some b"
  by (simp add: c_string_def takeWhile_terminated)

subsection \<open>What \<open>dev_read\<close> and \<open>dev_write\<close> compute\<close>

lemma copy_to_user_ok: "fst (copy_to_user writable src n) = 0 \<longleftrightarrow> n \<le> writable"
  by (auto simp: copy_to_user_def Let_def)

lemma dev_read_slot:
  assumes "slot_inv s"
  shows "dev_read s writable len =
    (if nat (sint (size_of_message s)) \<le> writable
     then (0, s\<lparr>size_of_message := 0\<rparr>, take (nat (sint (size_of_message s))) (message s))
     else (- EFAULT, s, take writable (message s)))"
proof -
  let ?N = "nat (sint (size_of_message s))"
  have n: "unat (scast (size_of_message s) :: 64 word) = ?N"
    using assms by (simp add: slot_inv_def slot_count)
  have "?N \<le> 256" using assms by (simp add: slot_inv_def MESSAGE_SIZE_def nat_le_iff)
  then have "?N - min ?N writable < 2 ^ 32" by simp
  then have z: "(of_nat (?N - min ?N writable) :: 32 word) = 0 \<longleftrightarrow> ?N - min ?N writable = 0"
    by (rule error_count_zero)
  show ?thesis
  proof (cases "?N \<le> writable")
    case True
    then show ?thesis
      by (simp add: dev_read_def copy_to_user_def n min_absorb1)
  next
    case False
    then have "?N - min ?N writable \<noteq> 0" by simp
    with z have "(of_nat (?N - min ?N writable) :: 32 word) \<noteq> 0" by simp
    with False show ?thesis
      by (simp add: dev_read_def copy_to_user_def n min_absorb2)
  qed
qed

lemma dev_write_fits:
  assumes "c_string buffer = Some str"
    and "length str + length (annotation len) < length (message s)"
  shows "dev_write s buffer len =
    Inr (len, s\<lparr>message := str @ annotation len @ NUL #
                       drop (length str + length (annotation len) + 1) (message s),
                  size_of_message := of_nat (length str + length (annotation len))\<rparr>)"
proof -
  have "NUL \<notin> set (str @ annotation len)"
    using c_string_no_NUL [OF assms(1)] annotation_no_NUL by simp
  then have "strlen ((str @ annotation len) @ NUL #
        drop (length str + length (annotation len) + 1) (message s))
      = length (str @ annotation len)"
    by (rule strlen_terminated)
  then show ?thesis
    using assms by (simp add: dev_write_def format_message_def store_text_def)
qed

lemma dev_write_overrun:
  assumes "c_string buffer = Some str"
    and "\<not> length str + length (annotation len) < length (message s)"
  shows "dev_write s buffer len =
    Inl (Dst_overrun (length str + length (annotation len) + 1))"
  using assms by (simp add: dev_write_def format_message_def store_text_def)

lemma dev_write_unterminated:
  "NUL \<notin> set buffer \<Longrightarrow> dev_write s buffer len = Inl Src_unterminated"
  by (simp add: dev_write_def format_message_def c_string_def)

lemma slot_inv_initial: "slot_inv initial_state"
  by (simp add: slot_inv_def initial_state_def)

lemma slot_inv_hello: "slot_inv hello_state"
  by (simp add: slot_inv_def hello_state_def initial_state_def MESSAGE_SIZE_def)

section \<open>Reading\<close>

text \<open>
  C6. For every slot state (a state of the statics in which the slot invariant holds),
  if the copy to the caller's buffer fails during \<open>dev_read\<close>, the call returns
  \<open>-EFAULT\<close> (that is \<open>-14\<close>) and the statics, the buffer contents and the valid
  length among them, are exactly what they were before the call.
\<close>

theorem dev_read_fault_keeps_slot:
  assumes "slot_inv s"
    and "fst (copy_to_user writable (message s) (nat (sint (size_of_message s)))) \<noteq> 0"
  shows "fst (dev_read s writable len) = - EFAULT \<and> sint (- EFAULT) = - 14
       \<and> fst (snd (dev_read s writable len)) = s"
proof -
  from assms(2) have "\<not> nat (sint (size_of_message s)) \<le> writable"
    by (simp add: copy_to_user_ok)
  then show ?thesis
    by (simp add: dev_read_slot [OF assms(1)] EFAULT_def)
qed

theorem dev_read_fault_keeps_slot_witness:
  "slot_inv hello_state
   \<and> fst (copy_to_user 4 (message hello_state) (nat (sint (size_of_message hello_state)))) \<noteq> 0
   \<and> fst (dev_read hello_state 4 100) = - EFAULT
   \<and> fst (snd (dev_read hello_state 4 100)) = hello_state"
proof -
  have a: "slot_inv hello_state"
    by (simp add: slot_inv_def hello_state_def initial_state_def MESSAGE_SIZE_def)
  have b: "fst (copy_to_user 4 (message hello_state) (nat (sint (size_of_message hello_state)))) \<noteq> 0"
    by (simp add: copy_to_user_ok hello_state_def)
  show ?thesis
    using a b dev_read_fault_keeps_slot [OF a b, of 100] by simp
qed

text \<open>
  C1 as stated asks \<open>dev_read\<close> to return the number of bytes copied. With 17 valid
  bytes in the slot and room for them at the caller, the call copies the 17 bytes and
  returns 0.
\<close>

theorem dev_read_returns_count_counterexample:
  "slot_inv hello_state
   \<and> sint (size_of_message hello_state) = 17
   \<and> fst (copy_to_user 17 (message hello_state) 17) = 0
   \<and> dev_read hello_state 17 17 =
       (0, hello_state\<lparr>size_of_message := 0\<rparr>, ''hello (5 letters)'')
   \<and> sint (fst (dev_read hello_state 17 17)) \<noteq> 17"
proof -
  have r: "dev_read hello_state 17 17 =
       (0, hello_state\<lparr>size_of_message := 0\<rparr>, ''hello (5 letters)'')"
    by (simp add: dev_read_slot [OF slot_inv_hello]) (simp add: hello_state_def)
  have "sint (size_of_message hello_state) = 17"
    by (simp add: hello_state_def)
  moreover have "fst (copy_to_user 17 (message hello_state) 17) = 0"
    by (simp add: copy_to_user_ok)
  moreover have "sint (fst (dev_read hello_state 17 17)) \<noteq> 17"
    by (simp add: r)
  ultimately show ?thesis using slot_inv_hello r by simp
qed

text \<open>
  C1, as the code has it. In every slot state (the slot invariant holds) with valid
  length \<open>N\<close>, a
  \<open>dev_read\<close> whose copy to the caller succeeds stores the first \<open>N\<close> bytes of the
  buffer in the caller's memory, resets the valid length to 0 and returns 0: the value
  of the assignment \<open>size_of_message = 0\<close> is what the \<open>return\<close> statement returns.
\<close>

theorem dev_read_drains_slot:
  assumes "slot_inv s"
    and "fst (copy_to_user writable (message s) (nat (sint (size_of_message s)))) = 0"
  shows "dev_read s writable len =
           (0, s\<lparr>size_of_message := 0\<rparr>, take (nat (sint (size_of_message s))) (message s))
       \<and> length (take (nat (sint (size_of_message s))) (message s)) = nat (sint (size_of_message s))"
proof -
  from assms(2) have "nat (sint (size_of_message s)) \<le> writable"
    by (simp add: copy_to_user_ok)
  moreover have "nat (sint (size_of_message s)) \<le> length (message s)"
    using assms(1) by (simp add: slot_inv_def nat_le_iff)
  ultimately show ?thesis
    by (simp add: dev_read_slot [OF assms(1)])
qed

theorem dev_read_drains_slot_witness:
  "slot_inv hello_state
   \<and> fst (copy_to_user 64 (message hello_state) (nat (sint (size_of_message hello_state)))) = 0
   \<and> dev_read hello_state 64 64 =
       (0, hello_state\<lparr>size_of_message := 0\<rparr>, ''hello (5 letters)'')"
proof -
  have a: "slot_inv hello_state"
    by (simp add: slot_inv_def hello_state_def initial_state_def MESSAGE_SIZE_def)
  have b: "fst (copy_to_user 64 (message hello_state) (nat (sint (size_of_message hello_state)))) = 0"
    by (simp add: copy_to_user_ok hello_state_def)
  have c: "take (nat (sint (size_of_message hello_state))) (message hello_state) = ''hello (5 letters)''"
    by (simp add: hello_state_def)
  show ?thesis
    using a b dev_read_drains_slot [OF a b, of 64] by (simp add: c)
qed

text \<open>
  C9. The requested length \<open>len\<close> is never looked at: \<open>dev_read\<close> gives the same
  result for any two requested lengths, \<open>len = 0\<close> and lengths below the valid length
  among them. When the copy goes through, what it has stored in the caller's buffer
  is exactly the valid bytes of the slot, the first valid-length bytes of the buffer,
  and the return value is 0.
\<close>

theorem dev_read_ignores_len:
  "dev_read s writable len = dev_read s writable len'
   \<and> (slot_inv s \<and> nat (sint (size_of_message s)) \<le> writable \<longrightarrow>
        dev_read s writable len =
          (0, s\<lparr>size_of_message := 0\<rparr>, take (nat (sint (size_of_message s))) (message s))
        \<and> length (take (nat (sint (size_of_message s))) (message s))
            = nat (sint (size_of_message s)))"
proof -
  have "dev_read s writable len = dev_read s writable len'"
    by (simp add: dev_read_def)
  moreover have "dev_read s writable len =
          (0, s\<lparr>size_of_message := 0\<rparr>, take (nat (sint (size_of_message s))) (message s))
        \<and> length (take (nat (sint (size_of_message s))) (message s))
            = nat (sint (size_of_message s))"
    if "slot_inv s" and "nat (sint (size_of_message s)) \<le> writable"
  proof -
    have "nat (sint (size_of_message s)) \<le> length (message s)"
      using that(1) by (simp add: slot_inv_def nat_le_iff)
    then show ?thesis using that(2) by (simp add: dev_read_slot [OF that(1)])
  qed
  ultimately show ?thesis by blast
qed

theorem dev_read_ignores_len_witness:
  "slot_inv hello_state \<and> nat (sint (size_of_message hello_state)) \<le> 20
   \<and> dev_read hello_state 20 3 = dev_read hello_state 20 0
   \<and> dev_read hello_state 20 3 =
        (0, hello_state\<lparr>size_of_message := 0\<rparr>, ''hello (5 letters)'')
   \<and> dev_read hello_state 20 0 =
        (0, hello_state\<lparr>size_of_message := 0\<rparr>, ''hello (5 letters)'')
   \<and> length ''hello (5 letters)'' = nat (sint (size_of_message hello_state))"
proof -
  have a: "slot_inv hello_state"
    by (simp add: slot_inv_def hello_state_def initial_state_def MESSAGE_SIZE_def)
  have b: "nat (sint (size_of_message hello_state)) \<le> 20"
    by (simp add: hello_state_def)
  have c: "take (nat (sint (size_of_message hello_state))) (message hello_state)
             = ''hello (5 letters)''"
    by (simp add: hello_state_def)
  have d: "nat (sint (size_of_message hello_state)) = 17"
    by (simp add: hello_state_def)
  show ?thesis
    using a b dev_read_ignores_len [of hello_state 20 3 0, unfolded c]
      dev_read_ignores_len [of hello_state 20 0 3, unfolded c]
    by (simp add: d)
qed

section \<open>Writing\<close>

lemma dev_write_slot:
  assumes "length (message s) = MESSAGE_SIZE"
    and "c_string buffer = Some str"
    and "length str + length (annotation len) < MESSAGE_SIZE"
  shows "slot_inv (s\<lparr>message := str @ annotation len @ NUL #
                       drop (length str + length (annotation len) + 1) (message s),
                  size_of_message := of_nat (length str + length (annotation len))\<rparr>)"
    and "sint (of_nat (length str + length (annotation len)) :: 16 word)
           = int (length str + length (annotation len))"
proof -
  let ?T = "length str + length (annotation len)"
  have "?T < 32768" using assms(3) by (simp add: MESSAGE_SIZE_def)
  then show sz: "sint (of_nat ?T :: 16 word) = int ?T"
    by (rule sint_of_nat_short)
  have "length (str @ annotation len @ NUL # drop (?T + 1) (message s)) = MESSAGE_SIZE"
    using assms(1,3) by simp
  then show "slot_inv (s\<lparr>message := str @ annotation len @ NUL # drop (?T + 1) (message s),
                  size_of_message := of_nat ?T\<rparr>)"
    using assms(3) sz by (simp add: slot_inv_def)
qed

lemma zeros_239: "NUL # replicate 238 NUL = replicate 239 NUL"
proof -
  have "replicate (Suc 238) NUL = NUL # replicate 238 NUL"
    by (rule replicate_Suc)
  then show ?thesis by simp
qed

lemma annotation_5: "annotation 5 = '' (5 letters)''"
  by (simp add: annotation_def decimal.simps digit_def)

text \<open>
  C4, as the code has it. After \<open>write("hello", 5)\<close>, where the five bytes are followed
  by the zero byte that closes a C string, the slot holds \<open>hello (5 letters)\<close>, its
  closing zero byte and the old content from byte 18 on; the valid length is 17, the
  \<open>strlen\<close> of the text. A read with room for 17 bytes then stores those 17 bytes in the
  caller's buffer and leaves the valid length at 0.
\<close>

theorem write_hello_then_read:
  assumes "slot_inv s" and "17 \<le> writable"
  shows "dev_write s (''hello'' @ NUL # rest) 5 =
           Inr (5, s\<lparr>message := ''hello (5 letters)'' @ NUL # drop 18 (message s),
                       size_of_message := 17\<rparr>)
       \<and> dev_read (s\<lparr>message := ''hello (5 letters)'' @ NUL # drop 18 (message s),
                       size_of_message := 17\<rparr>) writable len =
           (0, s\<lparr>message := ''hello (5 letters)'' @ NUL # drop 18 (message s),
                  size_of_message := 0\<rparr>, ''hello (5 letters)'')"
proof -
  let ?s1 = "s\<lparr>message := ''hello (5 letters)'' @ NUL # drop 18 (message s),
                 size_of_message := 17\<rparr>"
  have len: "length (message s) = MESSAGE_SIZE"
    using assms(1) by (simp add: slot_inv_def)
  have c: "c_string (''hello'' @ NUL # rest) = Some ''hello''"
    by (rule c_string_terminated) simp
  have e: "length ''hello'' + length (annotation 5) + 1 = 18"
    and f: "length ''hello'' + length (annotation 5) = 17"
    by (simp_all add: annotation_5)
  have w: "dev_write s (''hello'' @ NUL # rest) 5 = Inr (5, ?s1)"
    using dev_write_fits [OF c, of 5 s, unfolded e f] len
    by (simp add: annotation_5 MESSAGE_SIZE_def)
  have inv: "slot_inv ?s1"
    using len by (simp add: slot_inv_def MESSAGE_SIZE_def)
  have "dev_read ?s1 writable len = (0, ?s1\<lparr>size_of_message := 0\<rparr>, ''hello (5 letters)'')"
    using assms(2) dev_read_slot [OF inv, of writable len] by simp
  with w show ?thesis by simp
qed

theorem write_hello_then_read_witness:
  "slot_inv initial_state \<and> (17::nat) \<le> 17
   \<and> dev_write initial_state (''hello'' @ [NUL]) 5 = Inr (5, hello_state)
   \<and> dev_read hello_state 17 17 =
        (0, hello_state\<lparr>size_of_message := 0\<rparr>, ''hello (5 letters)'')"
proof -
  have a: "slot_inv initial_state"
    by (simp add: slot_inv_def initial_state_def)
  have b: "(17::nat) \<le> 17" by simp
  have c: "initial_state\<lparr>message := ''hello (5 letters)'' @ NUL # drop 18 (message initial_state),
                       size_of_message := 17\<rparr> = hello_state"
    by (simp add: hello_state_def initial_state_def MESSAGE_SIZE_def zeros_239)
  have d: "initial_state\<lparr>message := ''hello (5 letters)'' @ NUL # drop 18 (message initial_state),
                       size_of_message := 0\<rparr> = hello_state\<lparr>size_of_message := 0\<rparr>"
    by (simp add: hello_state_def initial_state_def MESSAGE_SIZE_def zeros_239)
  show ?thesis
    using a write_hello_then_read [OF a b, of "[]" 17, unfolded c d] by simp
qed

text \<open>
  C4 as stated gives the text 18 bytes. The text \<open>hello (5 letters)\<close> has 17; the
  eighteenth byte that \<open>sprintf\<close> stores is the closing zero, which \<open>strlen\<close> does
  not count.
\<close>

theorem hello_length_counterexample:
  "dev_write initial_state (''hello'' @ [NUL]) 5 = Inr (5, hello_state)
   \<and> sint (size_of_message hello_state) = 17
   \<and> length ''hello (5 letters)'' = 17
   \<and> sint (size_of_message hello_state) \<noteq> 18"
  by (simp add: dev_write_def format_message_def c_string_def annotation_def decimal.simps
      digit_def store_text_def initial_state_def MESSAGE_SIZE_def strlen_def hello_state_def
      zeros_239)

lemma dev_write_valid_bytes:
  assumes "length (message s) = MESSAGE_SIZE"
    and "c_string buffer = Some str"
    and "length str + length (annotation len) < MESSAGE_SIZE"
  shows "\<exists>s1. dev_write s buffer len = Inr (len, s1) \<and> slot_inv s1
           \<and> nat (sint (size_of_message s1)) = length str + length (annotation len)
           \<and> take (length str + length (annotation len)) (message s1) = str @ annotation len"
proof -
  let ?T = "length str + length (annotation len)"
  define s1 where "s1 = s\<lparr>message := str @ annotation len @ NUL # drop (?T + 1) (message s),
                 size_of_message := of_nat ?T\<rparr>"
  have fits: "?T < length (message s)" using assms(1,3) by simp
  have "dev_write s buffer len = Inr (len, s1)"
    unfolding s1_def by (simp only: dev_write_fits [OF assms(2) fits])
  moreover have "slot_inv s1"
    unfolding s1_def by (rule dev_write_slot [OF assms])
  moreover have "size_of_message s1 = of_nat ?T"
    unfolding s1_def by (simp del: of_nat_add)
  then have "nat (sint (size_of_message s1)) = ?T"
    by (simp only: dev_write_slot(2) [OF assms] nat_int)
  moreover have "message s1 = (str @ annotation len) @ NUL # drop (?T + 1) (message s)"
    unfolding s1_def by simp
  then have "take ?T (message s1) = str @ annotation len"
    by simp
  ultimately show ?thesis by blast
qed

lemma dev_read_twice:
  assumes "slot_inv s1" and "nat (sint (size_of_message s1)) \<le> writable"
  shows "snd (snd (dev_read s1 writable l1)) = take (nat (sint (size_of_message s1))) (message s1)"
    and "snd (snd (dev_read (fst (snd (dev_read s1 writable l1))) writable l2)) = []"
proof -
  have r1: "dev_read s1 writable l1 =
      (0, s1\<lparr>size_of_message := 0\<rparr>, take (nat (sint (size_of_message s1))) (message s1))"
    using assms(2) by (simp add: dev_read_slot [OF assms(1)])
  then show "snd (snd (dev_read s1 writable l1)) = take (nat (sint (size_of_message s1))) (message s1)"
    by simp
  have inv2: "slot_inv (s1\<lparr>size_of_message := 0\<rparr>)"
    using assms(1) by (simp add: slot_inv_def)
  show "snd (snd (dev_read (fst (snd (dev_read s1 writable l1))) writable l2)) = []"
    by (simp add: r1 dev_read_slot [OF inv2])
qed

lemma dev_write_read:
  assumes "length (message s) = MESSAGE_SIZE"
    and "c_string buffer = Some str"
    and "length str + length (annotation len) < MESSAGE_SIZE"
    and "length str + length (annotation len) \<le> writable"
  shows "write_read_read s buffer len writable = Inr (str @ annotation len, [])"
proof -
  from dev_write_valid_bytes [OF assms(1-3)] obtain s1 where
    w: "dev_write s buffer len = Inr (len, s1)" and inv: "slot_inv s1"
    and n: "nat (sint (size_of_message s1)) = length str + length (annotation len)"
    and t: "take (length str + length (annotation len)) (message s1) = str @ annotation len"
    by blast
  from assms(4) n have le: "nat (sint (size_of_message s1)) \<le> writable" by simp
  show ?thesis
    by (simp add: write_read_read_def w Let_def dev_read_twice [OF inv le] n t)
qed

lemma annotation_of_length:
  assumes "n < 2 ^ 64"
  shows "annotation (of_nat n) = '' ('' @ decimal n @ '' letters)''"
proof -
  have "unat (of_nat n :: 64 word) = n"
    using assms by (simp add: unat_of_nat)
  then show ?thesis by (simp only: annotation_def)
qed

text \<open>
  C3, as the code has it. Let \<open>b\<close> be a byte sequence without a zero byte that is
  followed in the caller's memory by a zero byte, and let
  \<open>len(b) + len(decimal(len(b))) + 12 \<le> 256\<close>, so that \<open>b\<close>, the eleven fixed characters
  of the annotation, the digits and the closing zero byte fit the array. Then
  \<open>write(b, len(b))\<close> followed by a read with enough room stores exactly \<open>b\<close> and
  \<open> (len(b) letters)\<close> in the caller's buffer, and a second read straight after
  stores no byte.
\<close>

theorem write_read_roundtrip:
  assumes "slot_inv s"
    and "NUL \<notin> set b"
    and "length b + length (decimal (length b)) + 12 \<le> MESSAGE_SIZE"
    and "length b + length (decimal (length b)) + 11 \<le> writable"
  shows "write_read_read s (b @ NUL # rest) (of_nat (length b)) writable =
           Inr (b @ '' ('' @ decimal (length b) @ '' letters)'', [])"
proof -
  have "length b < 2 ^ 64"
    using assms(3) by (simp add: MESSAGE_SIZE_def)
  then have ann: "annotation (of_nat (length b)) = '' ('' @ decimal (length b) @ '' letters)''"
    by (rule annotation_of_length)
  have len: "length (message s) = MESSAGE_SIZE"
    using assms(1) by (simp add: slot_inv_def)
  have c: "c_string (b @ NUL # rest) = Some b"
    using assms(2) by (rule c_string_terminated)
  have fits: "length b + length (annotation (of_nat (length b))) < MESSAGE_SIZE"
    using assms(3) by (simp add: ann)
  have room: "length b + length (annotation (of_nat (length b))) \<le> writable"
    using assms(4) by (simp add: ann)
  show ?thesis
    using dev_write_read [OF len c fits room] by (simp only: ann)
qed

theorem write_read_roundtrip_witness:
  "slot_inv initial_state \<and> NUL \<notin> set ''hello''
   \<and> length ''hello'' + length (decimal (length ''hello'')) + 12 \<le> MESSAGE_SIZE
   \<and> length ''hello'' + length (decimal (length ''hello'')) + 11 \<le> 256
   \<and> write_read_read initial_state (''hello'' @ [NUL]) 5 256 = Inr (''hello (5 letters)'', [])"
proof -
  have a: "slot_inv initial_state"
    by (simp add: slot_inv_def initial_state_def)
  have b: "NUL \<notin> set ''hello''" by simp
  have l: "length ''hello'' = 5" by simp
  have d: "decimal (length ''hello'') = ''5''"
    by (simp only: l) (simp add: decimal.simps digit_def)
  have c: "length ''hello'' + length (decimal (length ''hello'')) + 12 \<le> MESSAGE_SIZE"
    by (simp only: d) (simp add: MESSAGE_SIZE_def)
  have e: "length ''hello'' + length (decimal (length ''hello'')) + 11 \<le> 256"
    by (simp only: d) simp
  show ?thesis
    using a b c e write_read_roundtrip [OF a b c e, of "[]", unfolded d] by simp
qed

text \<open>
  C3 as stated fails in three ways, all within its bound
  \<open>len(b) + len(decimal(len(b))) + 1 \<le> 256\<close>. A zero byte inside \<open>b\<close> ends the text:
  writing the three bytes \<open>a\<close>, zero, \<open>b\<close> delivers \<open>a (3 letters)\<close>. Bytes that follow
  \<open>b\<close> in memory are read up to the next zero byte: writing 2 bytes at a pointer to
  \<open>abxyz\<close> delivers \<open>abxyz (2 letters)\<close>. And 250 bytes satisfy the bound, yet
  \<open>sprintf\<close> then stores 265 bytes into the 256-byte array.
\<close>

theorem write_read_roundtrip_counterexample:
  "write_read_read initial_state [CHR ''a'', NUL, CHR ''b'', NUL] 3 256 = Inr (''a (3 letters)'', [])
   \<and> write_read_read initial_state (''abxyz'' @ [NUL]) 2 256 = Inr (''abxyz (2 letters)'', [])
   \<and> (250::nat) + length (decimal 250) + 1 \<le> 256
   \<and> write_read_read initial_state (replicate 250 CHR ''a'' @ [NUL]) 250 256 = Inl (Dst_overrun 265)"
proof -
  have "write_read_read initial_state [CHR ''a'', NUL, CHR ''b'', NUL] 3 256 = Inr (''a (3 letters)'', [])"
    by (simp add: write_read_read_def dev_write_def format_message_def c_string_def annotation_def
      decimal.simps digit_def store_text_def initial_state_def MESSAGE_SIZE_def strlen_def
      dev_read_def copy_to_user_def)
  moreover have "write_read_read initial_state (''abxyz'' @ [NUL]) 2 256 = Inr (''abxyz (2 letters)'', [])"
    by (simp add: write_read_read_def dev_write_def format_message_def c_string_def annotation_def
      decimal.simps digit_def store_text_def initial_state_def MESSAGE_SIZE_def strlen_def
      dev_read_def copy_to_user_def)
  moreover have "(250::nat) + length (decimal 250) + 1 \<le> 256"
    by (simp add: decimal.simps)
  moreover have "write_read_read initial_state (replicate 250 CHR ''a'' @ [NUL]) 250 256 = Inl (Dst_overrun 265)"
  proof -
    have c: "c_string (replicate 250 CHR ''a'' @ [NUL]) = Some (replicate 250 CHR ''a'')"
      by (rule c_string_terminated) simp
    have n: "\<not> length (replicate 250 CHR ''a'') + length (annotation 250) < length (message initial_state)"
      by (simp add: annotation_def decimal.simps initial_state_def MESSAGE_SIZE_def)
    show ?thesis
      using dev_write_overrun [OF c n]
      by (simp add: write_read_read_def annotation_def decimal.simps)
  qed
  ultimately show ?thesis by blast
qed

lemma slot_inv_dev_read: "slot_inv s \<Longrightarrow> slot_inv (fst (snd (dev_read s writable len)))"
  by (simp add: dev_read_slot) (simp add: slot_inv_def)

lemma slot_inv_dev_open: "slot_inv s \<Longrightarrow> slot_inv (snd (dev_open s))"
  by (simp add: dev_open_def slot_inv_def)

text \<open>
  C2. After a write the valid length is to stay within the 256 bytes of the buffer, a
  longer content being cut to 256 bytes. \<open>dev_write\<close> breaks this: it has no bound and
  cuts nothing. Written to a freshly loaded driver, 300 input bytes compose 314 bytes of
  text, and \<open>sprintf\<close> stores them and the closing zero byte, 315 bytes from the start
  of the 256-byte array \<open>message\<close>. The shortest input that does so has 242 bytes, for
  257 bytes stored.
\<close>

theorem dev_write_overruns_message:
  "dev_write initial_state (replicate 300 CHR ''a'' @ [NUL]) 300 = Inl (Dst_overrun 315)
   \<and> annotation 300 = '' (300 letters)''
   \<and> length (replicate 300 CHR ''a'' @ annotation 300) = 314
   \<and> dev_write initial_state (replicate 242 CHR ''a'' @ [NUL]) 242 = Inl (Dst_overrun 257)"
proof -
  have c: "c_string (replicate 300 CHR ''a'' @ [NUL]) = Some (replicate 300 CHR ''a'')"
    by (rule c_string_terminated) simp
  have a: "annotation 300 = '' (300 letters)''"
    by (simp add: annotation_def decimal.simps digit_def)
  have n: "\<not> length (replicate 300 CHR ''a'') + length (annotation 300) < length (message initial_state)"
    by (simp add: a initial_state_def MESSAGE_SIZE_def)
  have c': "c_string (replicate 242 CHR ''a'' @ [NUL]) = Some (replicate 242 CHR ''a'')"
    by (rule c_string_terminated) simp
  have a': "annotation 242 = '' (242 letters)''"
    by (simp add: annotation_def decimal.simps digit_def)
  have n': "\<not> length (replicate 242 CHR ''a'') + length (annotation 242) < length (message initial_state)"
    by (simp add: a' initial_state_def MESSAGE_SIZE_def)
  show ?thesis
    using dev_write_overrun [OF c n] dev_write_overrun [OF c' n'] by (simp add: a a')
qed

text \<open>
  Writes that fit. When the composed content (the input bytes before the first zero
  byte, then the annotation) and its closing zero byte fit the 256-byte array, the
  content is stored whole, the valid length is its length, and the slot invariant holds
  afterwards. \<open>dev_read\<close>, \<open>dev_open\<close> and \<open>dev_release\<close> keep the invariant in
  every case.
\<close>

lemma slot_inv_preserved:
  assumes "slot_inv s"
  shows "(c_string buffer = Some str \<and> length str + length (annotation len) + 1 \<le> MESSAGE_SIZE \<longrightarrow>
            (case dev_write s buffer len of
               Inl f \<Rightarrow> False
             | Inr written \<Rightarrow>
                 fst written = len
                 \<and> slot_inv (snd written)
                 \<and> nat (sint (size_of_message (snd written))) = length str + length (annotation len)
                 \<and> take (length str + length (annotation len)) (message (snd written))
                     = str @ annotation len))
       \<and> slot_inv (fst (snd (dev_read s writable rlen)))
       \<and> slot_inv (snd (dev_open s))
       \<and> slot_inv (snd (dev_release s))"
proof -
  have len: "length (message s) = MESSAGE_SIZE"
    using assms by (simp add: slot_inv_def)
  have "case dev_write s buffer len of
               Inl f \<Rightarrow> False
             | Inr written \<Rightarrow>
                 fst written = len
                 \<and> slot_inv (snd written)
                 \<and> nat (sint (size_of_message (snd written))) = length str + length (annotation len)
                 \<and> take (length str + length (annotation len)) (message (snd written))
                     = str @ annotation len"
    if c: "c_string buffer = Some str"
      and "length str + length (annotation len) + 1 \<le> MESSAGE_SIZE"
  proof -
    from that(2) have "length str + length (annotation len) < MESSAGE_SIZE" by simp
    from dev_write_valid_bytes [OF len c this] show ?thesis by auto
  qed
  moreover have "slot_inv (fst (snd (dev_read s writable rlen)))"
    using assms by (rule slot_inv_dev_read)
  moreover have "slot_inv (snd (dev_open s))"
    using assms by (rule slot_inv_dev_open)
  moreover have "slot_inv (snd (dev_release s))"
    using assms by (simp add: dev_release_def)
  ultimately show ?thesis by blast
qed

lemma sint_ssize_t:
  fixes w :: "64 word"
  assumes "unat w < 2 ^ 63"
  shows "sint w = int (unat w)"
proof -
  have "int (unat w) < int (2 ^ 63)"
    using assms by (simp only: of_nat_less_iff)
  then have "uint w < 2 ^ 63"
    by simp
  moreover have "- (2 ^ 63) \<le> uint w"
  proof -
    have "- (2 ^ 63) \<le> (0::int)" by simp
    also have "0 \<le> uint w" by (rule uint_nonnegative)
    finally show ?thesis .
  qed
  ultimately have "signed_take_bit 63 (uint w) = uint w"
    by (rule signed_take_bit_int_eq_self [rotated])
  moreover have "sint w = signed_take_bit 63 (uint w)"
    by (simp only: sint_uint [of w]) simp
  ultimately have "sint w = uint w"
    by (simp only:)
  then show ?thesis by simp
qed

text \<open>
  C7 as stated has every write report success and return the requested length. Three
  writes to a freshly loaded driver do not. Five bytes with no zero byte after them
  make \<open>%s\<close> read past the end of the caller's memory, and 300 bytes make \<open>sprintf\<close>
  store 315 bytes into the 256-byte array: neither call returns in a defined way. And
  the requested length \<open>2^64 - 14\<close> is returned as the \<open>ssize_t\<close> value \<open>-14\<close>,
  which is \<open>-EFAULT\<close>, an error code.
\<close>

theorem dev_write_returns_len_counterexample:
  "dev_write initial_state ''hello'' 5 = Inl Src_unterminated
   \<and> dev_write initial_state (replicate 300 CHR ''a'' @ [NUL]) 300 = Inl (Dst_overrun 315)
   \<and> dev_write initial_state (''a'' @ [NUL]) (- 14) =
        Inr (- 14, initial_state\<lparr>message := ''a (18446744073709551602 letters)'' @ NUL #
                                               replicate 223 NUL,
                                  size_of_message := 32\<rparr>)
   \<and> sint (- 14 :: 64 word) = - 14
   \<and> (- 14 :: 64 word) = - EFAULT"
proof -
  have "dev_write initial_state ''hello'' 5 = Inl Src_unterminated"
    by (rule dev_write_unterminated) simp
  moreover have "dev_write initial_state (replicate 300 CHR ''a'' @ [NUL]) 300 = Inl (Dst_overrun 315)"
  proof -
    have c: "c_string (replicate 300 CHR ''a'' @ [NUL]) = Some (replicate 300 CHR ''a'')"
      by (rule c_string_terminated) simp
    have a: "annotation 300 = '' (300 letters)''"
      by (simp add: annotation_def decimal.simps digit_def)
    have n: "\<not> length (replicate 300 CHR ''a'') + length (annotation 300)
               < length (message initial_state)"
      by (simp add: a initial_state_def MESSAGE_SIZE_def)
    show ?thesis
      using dev_write_overrun [OF c n] by (simp add: a)
  qed
  moreover have "dev_write initial_state (''a'' @ [NUL]) (- 14) =
        Inr (- 14, initial_state\<lparr>message := ''a (18446744073709551602 letters)'' @ NUL #
                                               replicate 223 NUL,
                                  size_of_message := 32\<rparr>)"
    by (simp add: dev_write_def format_message_def c_string_def annotation_def decimal.simps
        digit_def store_text_def initial_state_def MESSAGE_SIZE_def strlen_def)
  moreover have "sint (- 14 :: 64 word) = - 14" by simp
  moreover have "(- 14 :: 64 word) = - EFAULT" by (simp add: EFAULT_def)
  ultimately show ?thesis by blast
qed

text \<open>
  C7, as the code has it. Let the input have a zero byte, and let the composed text and
  its closing zero byte fit the 256-byte array. Then \<open>dev_write\<close> stores the text and
  returns \<open>len\<close>, the count it was asked to write, whether the input bytes it stored
  are fewer or more than \<open>len\<close>. Read as the \<open>ssize_t\<close> that the caller gets, the
  value is the number \<open>len\<close> itself, so not an error code, for every \<open>len\<close> below
  \<open>2^63\<close>.
\<close>

theorem dev_write_returns_len:
  assumes "slot_inv s"
    and "c_string buffer = Some str"
    and "length str + length (annotation len) + 1 \<le> MESSAGE_SIZE"
  shows "dev_write s buffer len =
           Inr (len, s\<lparr>message := str @ annotation len @ NUL #
                              drop (length str + length (annotation len) + 1) (message s),
                          size_of_message := of_nat (length str + length (annotation len))\<rparr>)
       \<and> (unat len < 2 ^ 63 \<longrightarrow> 0 \<le> sint len \<and> sint len = int (unat len))"
proof -
  have "length str + length (annotation len) < length (message s)"
    using assms(1,3) by (simp add: slot_inv_def)
  then have "dev_write s buffer len =
           Inr (len, s\<lparr>message := str @ annotation len @ NUL #
                              drop (length str + length (annotation len) + 1) (message s),
                          size_of_message := of_nat (length str + length (annotation len))\<rparr>)"
    by (rule dev_write_fits [OF assms(2)])
  moreover have "0 \<le> sint len \<and> sint len = int (unat len)" if "unat len < 2 ^ 63"
    using sint_ssize_t [OF that] by simp
  ultimately show ?thesis by blast
qed

theorem dev_write_returns_len_witness:
  "slot_inv initial_state
   \<and> c_string (''ab'' @ NUL # ''cd'' @ [NUL]) = Some ''ab''
   \<and> length ''ab'' + length (annotation 5) + 1 \<le> MESSAGE_SIZE
   \<and> unat (5 :: 64 word) < 2 ^ 63
   \<and> dev_write initial_state (''ab'' @ NUL # ''cd'' @ [NUL]) 5 =
        Inr (5, initial_state\<lparr>message := ''ab (5 letters)'' @ NUL # replicate 241 NUL,
                               size_of_message := 14\<rparr>)
   \<and> sint (5 :: 64 word) = 5
   \<and> c_string (''abxyz'' @ [NUL]) = Some ''abxyz''
   \<and> length ''abxyz'' + length (annotation 2) + 1 \<le> MESSAGE_SIZE
   \<and> unat (2 :: 64 word) < 2 ^ 63
   \<and> dev_write initial_state (''abxyz'' @ [NUL]) 2 =
        Inr (2, initial_state\<lparr>message := ''abxyz (2 letters)'' @ NUL # replicate 238 NUL,
                               size_of_message := 17\<rparr>)
   \<and> sint (2 :: 64 word) = 2"
proof -
  have a: "slot_inv initial_state"
    by (simp add: slot_inv_def initial_state_def)
  have c1: "c_string (''ab'' @ NUL # ''cd'' @ [NUL]) = Some ''ab''"
    by (simp add: c_string_def)
  have f1: "length ''ab'' + length (annotation 5) + 1 \<le> MESSAGE_SIZE"
    by (simp add: annotation_5 MESSAGE_SIZE_def)
  have n2: "annotation 2 = '' (2 letters)''"
    by (simp add: annotation_def decimal.simps digit_def)
  have c2: "c_string (''abxyz'' @ [NUL]) = Some ''abxyz''"
    by (simp add: c_string_def)
  have f2: "length ''abxyz'' + length (annotation 2) + 1 \<le> MESSAGE_SIZE"
    by (simp add: n2 MESSAGE_SIZE_def)
  show ?thesis
    using a c1 f1 c2 f2 dev_write_returns_len [OF a c1 f1] dev_write_returns_len [OF a c2 f2]
    by (simp add: annotation_5 n2 initial_state_def MESSAGE_SIZE_def)
qed

text \<open>
  C10. If the input has a zero byte at a position before \<open>len\<close>, the text that
  \<open>dev_write\<close> stores is the input before its first zero byte followed by the
  annotation. That prefix is shorter than \<open>len\<close>, so the first zero byte and the bytes
  after it, although within the requested length, are not stored.
\<close>

theorem dev_write_stops_at_NUL:
  assumes "i < unat len" and "i < length buffer" and "buffer ! i = NUL"
  shows "let p = takeWhile (\<lambda>c. c \<noteq> NUL) buffer in
           length p \<le> i \<and> length p < unat len \<and> p = take (length p) buffer
           \<and> buffer ! length p = NUL \<and> NUL \<notin> set p
           \<and> dev_write s buffer len =
               (if length p + length (annotation len) < length (message s)
                then Inr (len, s\<lparr>message := p @ annotation len @ NUL #
                                  drop (length p + length (annotation len) + 1) (message s),
                              size_of_message := of_nat (length p + length (annotation len))\<rparr>)
                else Inl (Dst_overrun (length p + length (annotation len) + 1)))"
proof -
  define p where "p = takeWhile (\<lambda>c. c \<noteq> NUL) buffer"
  have mem: "NUL \<in> set buffer"
    using nth_mem [OF assms(2)] assms(3) by simp
  then have c: "c_string buffer = Some p"
    by (simp add: c_string_def p_def)
  have le: "length p \<le> i"
  proof (rule ccontr)
    assume "\<not> length p \<le> i"
    then have i: "i < length p" by simp
    then have "p ! i \<in> set p" by (rule nth_mem)
    then have "p ! i \<noteq> NUL"
      unfolding p_def by (rule set_takeWhileD [THEN conjunct2])
    moreover have "p ! i = buffer ! i"
      using i unfolding p_def by (rule takeWhile_nth)
    ultimately show False using assms(3) by simp
  qed
  then have lt: "length p < unat len" using assms(1) by simp
  have pre: "p = take (length p) buffer"
    unfolding p_def by (rule takeWhile_eq_take)
  have "length p < length buffer" using le assms(2) by simp
  then have z: "buffer ! length p = NUL"
    unfolding p_def using nth_length_takeWhile [of "\<lambda>c. c \<noteq> NUL" buffer] by simp
  have nn: "NUL \<notin> set p" using c by (rule c_string_no_NUL)
  have w: "dev_write s buffer len =
               (if length p + length (annotation len) < length (message s)
                then Inr (len, s\<lparr>message := p @ annotation len @ NUL #
                                  drop (length p + length (annotation len) + 1) (message s),
                              size_of_message := of_nat (length p + length (annotation len))\<rparr>)
                else Inl (Dst_overrun (length p + length (annotation len) + 1)))"
  proof (cases "length p + length (annotation len) < length (message s)")
    case True
    then show ?thesis by (simp only: dev_write_fits [OF c True] if_True)
  next
    case False
    then show ?thesis by (simp only: dev_write_overrun [OF c False] if_False)
  qed
  from le lt pre z nn w show ?thesis
    unfolding Let_def p_def [symmetric] by blast
qed

theorem dev_write_stops_at_NUL_witness:
  "(2::nat) < unat (5 :: 64 word) \<and> 2 < length (''ab'' @ NUL # ''cd'' @ [NUL])
   \<and> (''ab'' @ NUL # ''cd'' @ [NUL]) ! 2 = NUL
   \<and> dev_write initial_state (''ab'' @ NUL # ''cd'' @ [NUL]) 5 =
        Inr (5, initial_state\<lparr>message := ''ab (5 letters)'' @ NUL # replicate 241 NUL,
                              size_of_message := 14\<rparr>)"
proof -
  have a: "(2::nat) < unat (5 :: 64 word)" by simp
  have b: "2 < length (''ab'' @ NUL # ''cd'' @ [NUL])" by simp
  have c: "(''ab'' @ NUL # ''cd'' @ [NUL]) ! 2 = NUL" by simp
  show ?thesis
    using a b c dev_write_stops_at_NUL [OF a b c, of initial_state]
    by (simp add: Let_def annotation_5 initial_state_def MESSAGE_SIZE_def)
qed

section \<open>Opening\<close>

lemma opens_eq: "opens n s = s\<lparr>open_num := open_num s + of_nat n\<rparr>"
  by (induction n arbitrary: s) (simp_all add: dev_open_def add.assoc add.commute)

text \<open>
  C8 as stated has the counter equal the number of calls for every number of calls.
  \<open>open_num\<close> is an \<open>int\<close>: the call number \<open>2^31\<close> takes it from \<open>INT_MAX\<close> to
  \<open>INT_MIN\<close>.
\<close>

theorem open_counter_wraps_counterexample:
  "sint (open_num (opens 2147483648 initial_state)) = - 2147483648
   \<and> sint (open_num (opens 2147483648 initial_state)) \<noteq> 2147483648"
  by (simp add: opens_eq initial_state_def)

text \<open>
  C8, as the code has it. \<open>dev_open\<close> always returns 0 and changes nothing but
  \<open>open_num\<close>, which it increments: the message and its valid length stay as they
  were. Starting from a counter of 0, the counter after \<open>n\<close> calls in a row is \<open>n\<close> for
  every \<open>n\<close> below \<open>2^31\<close>, the range of the \<open>int\<close> that holds it.
\<close>

theorem dev_open_counts:
  "fst (dev_open s) = 0
   \<and> snd (dev_open s) = s\<lparr>open_num := open_num s + 1\<rparr>
   \<and> message (snd (dev_open s)) = message s
   \<and> size_of_message (snd (dev_open s)) = size_of_message s
   \<and> message (opens n s) = message s
   \<and> size_of_message (opens n s) = size_of_message s
   \<and> (open_num s = 0 \<and> n < 2 ^ 31 \<longrightarrow> sint (open_num (opens n s)) = int n)"
  by (simp add: dev_open_def opens_eq sint_of_nat_int)

theorem dev_open_counts_witness:
  "open_num initial_state = 0 \<and> (3::nat) < 2 ^ 31
   \<and> fst (dev_open initial_state) = 0
   \<and> opens 3 initial_state = snd (dev_open (snd (dev_open (snd (dev_open initial_state)))))
   \<and> sint (open_num (opens 3 initial_state)) = 3"
proof -
  have a: "open_num initial_state = 0" by (simp add: initial_state_def)
  have b: "(3::nat) < 2 ^ 31" by simp
  have c: "opens 3 initial_state = snd (dev_open (snd (dev_open (snd (dev_open initial_state)))))"
    by (simp add: eval_nat_numeral)
  show ?thesis
    using a b c dev_open_counts [of initial_state 3] by simp
qed

section \<open>Rollback of a failed registration\<close>

text \<open>
  C5. Let the major-number allocation of step (a) succeed. If class creation, step (b),
  fails, \<open>chardev_init\<close> calls \<open>unregister_chrdev\<close> once with the allocated number,
  never calls \<open>device_create\<close>, and returns the negative error code of the class
  pointer. If class creation succeeds and device-node creation, step (c), fails, it
  calls \<open>class_destroy\<close> on the class and then \<open>unregister_chrdev\<close> on the number,
  once each, and returns the negative error code of the device pointer.
\<close>

theorem chardev_init_rollback:
  assumes "0 \<le> register_chrdev_ret k"
  shows "(IS_ERR (class_create_ret k) \<longrightarrow>
            chardev_init k s =
              (PTR_ERR (class_create_ret k),
               s\<lparr>major_num := register_chrdev_ret k, chardev_class := class_create_ret k\<rparr>,
               [Register_chrdev 0, Class_create, Unregister_chrdev (register_chrdev_ret k)])
            \<and> PTR_ERR (class_create_ret k) < 0
            \<and> length (filter is_unregister_chrdev (snd (snd (chardev_init k s)))) = 1
            \<and> filter is_device_create (snd (snd (chardev_init k s))) = [])
       \<and> (\<not> IS_ERR (class_create_ret k) \<and> IS_ERR (device_create_ret k) \<longrightarrow>
            chardev_init k s =
              (PTR_ERR (device_create_ret k),
               s\<lparr>major_num := register_chrdev_ret k, chardev_class := class_create_ret k,
                  chardev_device := device_create_ret k\<rparr>,
               [Register_chrdev 0, Class_create,
                Device_create (class_create_ret k) (register_chrdev_ret k),
                Class_destroy (class_create_ret k),
                Unregister_chrdev (register_chrdev_ret k)])
            \<and> PTR_ERR (device_create_ret k) < 0
            \<and> length (filter is_class_destroy (snd (snd (chardev_init k s)))) = 1
            \<and> length (filter is_unregister_chrdev (snd (snd (chardev_init k s)))) = 1)"
proof -
  have neg: "PTR_ERR p < 0" if "IS_ERR p" for p
    using that by (cases p) simp_all
  show ?thesis
    using assms
    by (simp add: chardev_init_def Let_def neg is_unregister_chrdev_def is_device_create_def
        is_class_destroy_def)
qed

theorem chardev_init_rollback_witness:
  "(0::int) \<le> 240 \<and> IS_ERR (ERR_PTR (- 12)) \<and> \<not> IS_ERR (Obj 1)
   \<and> chardev_init \<lparr>register_chrdev_ret = 240, class_create_ret = ERR_PTR (- 12),
                     device_create_ret = Obj 2\<rparr> initial_state =
        (- 12, initial_state\<lparr>major_num := 240, chardev_class := ERR_PTR (- 12)\<rparr>,
         [Register_chrdev 0, Class_create, Unregister_chrdev 240])
   \<and> chardev_init \<lparr>register_chrdev_ret = 240, class_create_ret = Obj 1,
                     device_create_ret = ERR_PTR (- 12)\<rparr> initial_state =
        (- 12, initial_state\<lparr>major_num := 240, chardev_class := Obj 1,
                              chardev_device := ERR_PTR (- 12)\<rparr>,
         [Register_chrdev 0, Class_create, Device_create (Obj 1) 240, Class_destroy (Obj 1),
          Unregister_chrdev 240])"
proof -
  have a: "(0::int) \<le> register_chrdev_ret \<lparr>register_chrdev_ret = 240, class_create_ret = ERR_PTR (- 12),
                     device_create_ret = Obj 2\<rparr>"
    by simp
  have b: "(0::int) \<le> register_chrdev_ret \<lparr>register_chrdev_ret = 240, class_create_ret = Obj 1,
                     device_create_ret = ERR_PTR (- 12)\<rparr>"
    by simp
  show ?thesis
    using chardev_init_rollback [OF a, of initial_state] chardev_init_rollback [OF b, of initial_state]
    by simp
qed

end
